theory Spec2Isabelle
  imports Main "HOL-Library.Word"
begin

unbundle bit_operations_syntax

section \<open>Connection-pool hash table (conntable\_v2.c)\<close>

text \<open>
  A shallow embedding of the connection table of \<^verbatim>\<open>src/conntable_v2.c\<close>.
  Heap objects (pools and connection nodes) live in two stores indexed by address;
  a C pointer is \<^verbatim>\<open>NULL\<close>, a non-null integer cast to a pointer (what
  \<^verbatim>\<open>ERR_PTR\<close> builds) or the address of an object. Every function returns either a
  fault (a failed \<^verbatim>\<open>CONNTBL_ASSERT\<close> or an access through a pointer that is not
  the address of a live object) or its C result together with the new state.
  The table's reader/writer lock is not data of the model: each function below is
  one critical section of the source unless said otherwise, and
  \<^verbatim>\<open>connectionpool_hashtable_insert\<close>, which drops and retakes the lock, is
  built from its sections so that they can be interleaved.
\<close>

subsection \<open>Machine types, pointers, error numbers\<close>

type_synonym u32 = "32 word"
type_synonym u64 = "64 word"
type_synonym atomic_t = "32 word"
type_synonym atomic64_t = "64 word"

datatype ptr = NULL | IntPtr int | Ref nat

datatype fault = AssertFailed | BadAccess

type_synonym 'a outcome = "fault + 'a"

definition ENOENT :: int where "ENOENT = 2"
definition ENOMEM :: int where "ENOMEM = 12"
definition EBUSY :: int where "EBUSY = 16"
definition EINVAL :: int where "EINVAL = 22"
definition EPIPE :: int where "EPIPE = 32"
definition MAX_ERRNO :: int where "MAX_ERRNO = 4095"

text \<open>
  \<^verbatim>\<open>ERR_PTR\<close>, \<^verbatim>\<open>IS_ERR\<close> and \<^verbatim>\<open>PTR_ERR\<close> of
  \<^verbatim>\<open>linux/err.h\<close>: a pointer is an error pointer when, read as a long, it lies in
  \<open>[-MAX_ERRNO, -1]\<close>. The address of a live object never does.
\<close>

definition ERR_PTR :: "int \<Rightarrow> ptr" where
  "ERR_PTR e = (if e = 0 then NULL else IntPtr e)"

definition IS_ERR :: "ptr \<Rightarrow> bool" where
  "IS_ERR p = (case p of IntPtr e \<Rightarrow> - MAX_ERRNO \<le> e \<and> e < 0 | _ \<Rightarrow> False)"

definition PTR_ERR :: "ptr \<Rightarrow> int" where
  "PTR_ERR p = (case p of IntPtr e \<Rightarrow> e | NULL \<Rightarrow> 0 | Ref a \<Rightarrow> int a)"

subsection \<open>Data model\<close>

text \<open>
  Modelled from the spec: \<^verbatim>\<open>conntable.h\<close> is not among the sources, so the
  connection states, the operation tag, the lock bit and the fields of the two
  structures follow section 3 of the specification and the uses in the code.
  \<open>OP_OTHER\<close> stands for any value of \<^verbatim>\<open>conn_op_t\<close> that is neither
  \<^verbatim>\<open>GET\<close> nor \<^verbatim>\<open>PUT\<close> (the \<^verbatim>\<open>default\<close> branch of the switch).
\<close>

datatype conn_state =
  CONN_DOWN | CONN_READY | CONN_ACTIVE | CONN_RETRY | CONN_FAILED | CONN_ZOMBIE

datatype conn_op_t = GET | PUT | OP_OTHER

definition CONN_LOCKED :: nat where "CONN_LOCKED = 0"

record cacheobj_connection_node =
  n_ip :: "string option"
  n_port :: u32
  n_state :: conn_state
  n_flags :: u64
  n_pool :: ptr
  n_now_js :: u64
  n_nr_retry_attempts :: u32
  n_nr_lookups :: atomic64_t
  n_tot_js_get :: atomic64_t
  n_tot_js_put :: atomic64_t
  n_tot_js_wait :: atomic64_t
  n_tx_bytes :: atomic64_t
  n_rx_bytes :: atomic64_t

record cacheobj_connection_pool =
  p_ip :: string
  p_port :: u32
  p_key :: u32
  p_conn_list :: "nat list"
  p_wq :: "nat list"
  p_upref :: atomic_t
  p_nr_connections :: atomic_t
  p_nr_idle_connections :: atomic_t
  p_nr_waits :: atomic64_t

text \<open>
  The table with the heap it points into: \<open>buckets\<close> maps a bucket index to its
  chain of pool addresses (head first), \<open>pools\<close> and \<open>nodes\<close> are the live
  objects, \<open>jiffies\<close> is the tick counter that \<^verbatim>\<open>jiffies_now()\<close> reads.
\<close>

record kstate =
  buckets :: "nat \<Rightarrow> nat list"
  pools :: "nat \<rightharpoonup> cacheobj_connection_pool"
  nodes :: "nat \<rightharpoonup> cacheobj_connection_node"
  jiffies :: u64

text \<open>
  What the code takes from the kernel: the IPv4 parser \<^verbatim>\<open>in4_pton\<close> (\<open>None\<close> when
  it does not return 1), \<^verbatim>\<open>jhash_2words\<close>, the seed that
  \<^verbatim>\<open>net_get_random_once\<close> fixes, and the bucket index \<^verbatim>\<open>hash_min\<close> of a key.
\<close>

record kenv =
  in4_pton :: "string \<Rightarrow> u32 option"
  jhash_2words :: "u32 \<Rightarrow> u32 \<Rightarrow> u32 \<Rightarrow> u32"
  hash_seed :: u32
  hash_min :: "u32 \<Rightarrow> nat"

text \<open>The results of the allocator calls of one \<^verbatim>\<open>__connection_pool_alloc\<close>.\<close>

record kalloc =
  kzalloc_pool :: "nat option"
  kstrdup_ok :: bool

subsection \<open>Hashing\<close>

definition hashfn :: "kenv \<Rightarrow> u32 \<Rightarrow> u32 \<Rightarrow> u32" where
  "hashfn env daddr port = jhash_2words env daddr port (hash_seed env)"

text \<open>Returns the C return value and the content of \<^verbatim>\<open>*key\<close> afterwards.\<close>

definition ipv4_hash32 :: "kenv \<Rightarrow> string option \<Rightarrow> u32 \<Rightarrow> u32 \<Rightarrow> int \<times> u32" where
  "ipv4_hash32 env ip port key =
     (case ip of
        None \<Rightarrow> (- EINVAL, key)
      | Some str \<Rightarrow>
          (case in4_pton env str of
             Some daddr \<Rightarrow> (0, hashfn env daddr port)
           | None \<Rightarrow> (- EINVAL, key)))"

subsection \<open>Connection node\<close>

definition test_bit_lock :: "u64 \<Rightarrow> bool" where
  "test_bit_lock fl = bit fl CONN_LOCKED"

definition set_bit_lock :: "u64 \<Rightarrow> u64" where
  "set_bit_lock fl = set_bit CONN_LOCKED fl"

definition clear_bit_unlock :: "u64 \<Rightarrow> u64" where
  "clear_bit_unlock fl = unset_bit CONN_LOCKED fl"

definition connection_node_reset_stats ::
  "cacheobj_connection_node \<Rightarrow> cacheobj_connection_node" where
  "connection_node_reset_stats N =
     N\<lparr>n_nr_lookups := 0, n_tot_js_get := 0, n_tot_js_put := 0,
       n_tot_js_wait := 0, n_tx_bytes := 0, n_rx_bytes := 0\<rparr>"

definition connection_node_update_jiffies ::
  "u64 \<Rightarrow> cacheobj_connection_node \<Rightarrow> conn_op_t \<Rightarrow> cacheobj_connection_node outcome" where
  "connection_node_update_jiffies now N op =
     (case op of
        GET \<Rightarrow> Inr (N\<lparr>n_tot_js_get := n_tot_js_get N + (now - n_now_js N)\<rparr>)
      | PUT \<Rightarrow> Inr (N\<lparr>n_tot_js_put := n_tot_js_put N + (now - n_now_js N)\<rparr>)
      | OP_OTHER \<Rightarrow> Inl AssertFailed)"

text \<open>
  \<^verbatim>\<open>cacheobj_connection_node_init\<close>: \<open>ip\<close> is the argument (\<open>None\<close> for
  \<^verbatim>\<open>NULL\<close>), \<open>dup_ok\<close> says whether \<^verbatim>\<open>kstrdup\<close> succeeds.
\<close>

definition cacheobj_connection_node_init ::
  "cacheobj_connection_node \<Rightarrow> string option \<Rightarrow> u32 \<Rightarrow> bool \<Rightarrow>
     (int \<times> cacheobj_connection_node) outcome" where
  "cacheobj_connection_node_init N ip port dup_ok =
     (case ip of
        None \<Rightarrow> Inl AssertFailed
      | Some str \<Rightarrow>
          if \<not> dup_ok then Inr (- ENOMEM, N\<lparr>n_ip := None\<rparr>)
          else Inr (0, connection_node_reset_stats
                 (N\<lparr>n_ip := Some str, n_port := port, n_state := CONN_DOWN,
                    n_flags := 0, n_pool := NULL\<rparr>)))"

text \<open>
  \<^verbatim>\<open>cacheobj_connection_node_failed\<close>, store by store in program order:
  the test-and-set inside the assertion, then \<^verbatim>\<open>clear_bit_unlock\<close>, then the
  assignment of \<^verbatim>\<open>CONN_FAILED\<close>.
\<close>

definition failed_lock_store :: "cacheobj_connection_node \<Rightarrow> cacheobj_connection_node" where
  "failed_lock_store N = N\<lparr>n_flags := set_bit_lock (n_flags N)\<rparr>"

definition failed_unlock_store :: "cacheobj_connection_node \<Rightarrow> cacheobj_connection_node" where
  "failed_unlock_store N = N\<lparr>n_flags := clear_bit_unlock (n_flags N)\<rparr>"

definition failed_state_store :: "cacheobj_connection_node \<Rightarrow> cacheobj_connection_node" where
  "failed_state_store N = N\<lparr>n_state := CONN_FAILED\<rparr>"

definition cacheobj_connection_node_failed ::
  "cacheobj_connection_node \<Rightarrow> cacheobj_connection_node outcome" where
  "cacheobj_connection_node_failed N =
     (if \<not> test_bit_lock (n_flags N) then Inl AssertFailed
      else if n_state N = CONN_ACTIVE \<or> n_state N = CONN_RETRY
      then Inr (failed_state_store (failed_unlock_store (failed_lock_store N)))
      else Inl AssertFailed)"

text \<open>
  The values of the node that another task can read while
  \<^verbatim>\<open>cacheobj_connection_node_failed\<close> runs on a locked node in state
  \<^verbatim>\<open>CONN_ACTIVE\<close> or \<^verbatim>\<open>CONN_RETRY\<close>: one per store, in program order.
\<close>

definition cacheobj_connection_node_failed_trace ::
  "cacheobj_connection_node \<Rightarrow> cacheobj_connection_node list" where
  "cacheobj_connection_node_failed_trace N =
     [failed_lock_store N,
      failed_unlock_store (failed_lock_store N),
      failed_state_store (failed_unlock_store (failed_lock_store N))]"

definition cacheobj_connection_node_retry ::
  "cacheobj_connection_node \<Rightarrow> cacheobj_connection_node outcome" where
  "cacheobj_connection_node_retry N =
     (if test_bit_lock (n_flags N) then Inl AssertFailed
      else Inr (N\<lparr>n_flags := set_bit_lock (n_flags N), n_state := CONN_RETRY\<rparr>))"

definition cacheobj_connection_node_ready ::
  "cacheobj_connection_node \<Rightarrow> cacheobj_connection_node outcome" where
  "cacheobj_connection_node_ready N =
     (if n_state N \<noteq> CONN_RETRY then Inr N
      else if \<not> test_bit_lock (n_flags N) then Inl AssertFailed
      else Inr (N\<lparr>n_state := CONN_READY,
                 n_flags := clear_bit_unlock (set_bit_lock (n_flags N))\<rparr>))"

text \<open>A node operation applied to the node at address \<open>connp\<close> of the heap.\<close>

definition on_node ::
  "(cacheobj_connection_node \<Rightarrow> cacheobj_connection_node outcome) \<Rightarrow> kstate \<Rightarrow> nat \<Rightarrow>
     kstate outcome" where
  "on_node f s connp =
     (case nodes s connp of
        None \<Rightarrow> Inl BadAccess
      | Some N \<Rightarrow>
          (case f N of
             Inl e \<Rightarrow> Inl e
           | Inr N' \<Rightarrow> Inr (s\<lparr>nodes := (nodes s)(connp \<mapsto> N')\<rparr>)))"

subsection \<open>Connection pool\<close>

text \<open>
  \<^verbatim>\<open>__connection_pool_alloc\<close>. The error paths hand back
  \<^verbatim>\<open>ERR_PTR(-err)\<close> with \<open>err\<close> already negative, as the source does.
  \<^verbatim>\<open>kstrdup\<close> of a \<^verbatim>\<open>NULL\<close> string is \<^verbatim>\<open>NULL\<close>.
\<close>

definition connection_pool_alloc ::
  "kenv \<Rightarrow> kalloc \<Rightarrow> kstate \<Rightarrow> string option \<Rightarrow> u32 \<Rightarrow> ptr \<times> kstate" where
  "connection_pool_alloc env m s ip port =
     (case kzalloc_pool m of
        None \<Rightarrow> (ERR_PTR (- (- ENOMEM)), s)
      | Some a \<Rightarrow>
          (case (if kstrdup_ok m then ip else None) of
             None \<Rightarrow> (ERR_PTR (- (- ENOMEM)), s)
           | Some str \<Rightarrow>
               (case ipv4_hash32 env (Some str) port 0 of
                  (rc, key) \<Rightarrow>
                    if rc < 0 then (ERR_PTR (- (- EINVAL)), s)
                    else (Ref a,
                          s\<lparr>pools := (pools s)(a \<mapsto>
                              \<lparr>p_ip = str, p_port = port, p_key = key, p_conn_list = [],
                               p_wq = [], p_upref = 0, p_nr_connections = 0,
                               p_nr_idle_connections = 0, p_nr_waits = 0\<rparr>)\<rparr>))))"

subsection \<open>Lookup\<close>

text \<open>
  The walk of one bucket chain in \<^verbatim>\<open>__get_connection_pool\<close>, then the function
  itself. A \<^verbatim>\<open>NULL\<close> address never gets past \<^verbatim>\<open>ipv4_hash32\<close>.
\<close>

fun chain_find :: "kstate \<Rightarrow> nat list \<Rightarrow> string \<Rightarrow> u32 \<Rightarrow> u32 \<Rightarrow> ptr outcome" where
  "chain_find s [] ip port key = Inr NULL"
| "chain_find s (a # rest) ip port key =
     (case pools s a of
        None \<Rightarrow> Inl BadAccess
      | Some P \<Rightarrow>
          if p_port P = port \<and> p_ip P = ip
          then (if p_key P = key then Inr (Ref a) else Inl AssertFailed)
          else chain_find s rest ip port key)"

definition get_connection_pool ::
  "kenv \<Rightarrow> kstate \<Rightarrow> string option \<Rightarrow> u32 \<Rightarrow> ptr outcome" where
  "get_connection_pool env s ip port =
     (case ipv4_hash32 env ip port 0 of
        (rc, key) \<Rightarrow>
          if rc < 0 then Inr (ERR_PTR (- EINVAL))
          else (case ip of
                  None \<Rightarrow> Inl BadAccess
                | Some str \<Rightarrow> chain_find s (buckets s (hash_min env key)) str port key))"

subsection \<open>Insert\<close>

definition hash_add :: "kenv \<Rightarrow> kstate \<Rightarrow> ptr \<Rightarrow> kstate outcome" where
  "hash_add env s pool =
     (case pool of
        Ref pa \<Rightarrow>
          (case pools s pa of
             None \<Rightarrow> Inl BadAccess
           | Some P \<Rightarrow>
               Inr (s\<lparr>buckets := (buckets s)
                      (hash_min env (p_key P) := pa # buckets s (hash_min env (p_key P)))\<rparr>))
      | _ \<Rightarrow> Inl BadAccess)"

text \<open>
  From \<^verbatim>\<open>CONNTBL_ASSERT(!IS_ERR(pool))\<close> to \<^verbatim>\<open>return 0\<close>: the node is put
  at the head of the pool's list and made \<^verbatim>\<open>CONN_READY\<close>. Waking the wait
  queue changes no data.
\<close>

definition insert_attach :: "kstate \<Rightarrow> nat \<Rightarrow> ptr \<Rightarrow> (int \<times> kstate) outcome" where
  "insert_attach s connp pool =
     (if IS_ERR pool then Inl AssertFailed
      else case pool of
        Ref pa \<Rightarrow>
          (case nodes s connp of
             None \<Rightarrow> Inl BadAccess
           | Some N \<Rightarrow>
               (case pools s pa of
                  None \<Rightarrow> Inl BadAccess
                | Some P \<Rightarrow>
                    Inr (0,
                      s\<lparr>nodes := (nodes s)(connp \<mapsto> N\<lparr>n_pool := Ref pa, n_state := CONN_READY\<rparr>),
                        pools := (pools s)(pa \<mapsto>
                          P\<lparr>p_conn_list := connp # p_conn_list P,
                            p_nr_connections := p_nr_connections P + 1,
                            p_nr_idle_connections := p_nr_idle_connections P + 1,
                            p_upref := p_upref P + 1 - 1\<rparr>)\<rparr>)))
      | _ \<Rightarrow> Inl BadAccess)"

text \<open>
  What insert does with the result of the allocation, once it holds the write lock
  again: the \<^verbatim>\<open>IS_ERR\<close> test, \<^verbatim>\<open>hash_add\<close>, then the attachment.
\<close>

definition insert_after_alloc ::
  "kenv \<Rightarrow> kstate \<Rightarrow> nat \<Rightarrow> ptr \<Rightarrow> (int \<times> kstate) outcome" where
  "insert_after_alloc env s connp pool =
     (if IS_ERR pool then Inr (- ENOMEM, s)
      else case hash_add env s pool of
             Inl e \<Rightarrow> Inl e
           | Inr s' \<Rightarrow> insert_attach s' connp pool)"

definition connectionpool_hashtable_insert ::
  "kenv \<Rightarrow> kalloc \<Rightarrow> kstate \<Rightarrow> nat \<Rightarrow> (int \<times> kstate) outcome" where
  "connectionpool_hashtable_insert env m s connp =
     (case nodes s connp of
        None \<Rightarrow> Inl BadAccess
      | Some N \<Rightarrow>
          (case get_connection_pool env s (n_ip N) (n_port N) of
             Inl e \<Rightarrow> Inl e
           | Inr pool \<Rightarrow>
               if pool = NULL
               then (case connection_pool_alloc env m s (n_ip N) (n_port N) of
                       (pool', s') \<Rightarrow> insert_after_alloc env s' connp pool')
               else insert_attach s connp pool))"

subsection \<open>Remove\<close>

text \<open>
  \<^verbatim>\<open>__connection_remove\<close>. The node's \<^verbatim>\<open>list_node\<close> is linked exactly when the
  node is in the list of its pool. \<^verbatim>\<open>list_del\<close> on a node that is not linked
  writes through the poisoned links that an earlier \<^verbatim>\<open>list_del\<close> left: an
  invalid access.
\<close>

definition connection_remove :: "kstate \<Rightarrow> nat \<Rightarrow> (int \<times> kstate) outcome" where
  "connection_remove s connp =
     (case nodes s connp of
        None \<Rightarrow> Inl BadAccess
      | Some N \<Rightarrow>
          if test_bit_lock (n_flags N) then Inr (- EBUSY, s)
          else if n_pool N = NULL then Inl AssertFailed
          else if n_state N = CONN_ACTIVE then Inl AssertFailed
          else (case n_pool N of
                  Ref pa \<Rightarrow>
                    (case pools s pa of
                       None \<Rightarrow> Inl BadAccess
                     | Some P \<Rightarrow>
                         if connp \<notin> set (p_conn_list P) then Inl BadAccess
                         else Inr (0,
                           s\<lparr>nodes := (nodes s)(connp \<mapsto>
                               N\<lparr>n_flags := set_bit_lock (n_flags N),
                                 n_state := (if n_state N = CONN_READY then CONN_ZOMBIE
                                             else n_state N)\<rparr>),
                             pools := (pools s)(pa \<mapsto>
                               P\<lparr>p_nr_idle_connections :=
                                    (if n_state N = CONN_READY
                                     then p_nr_idle_connections P - 1
                                     else p_nr_idle_connections P),
                                 p_conn_list := remove1 connp (p_conn_list P),
                                 p_nr_connections := p_nr_connections P - 1\<rparr>)\<rparr>))
                | _ \<Rightarrow> Inl BadAccess))"

definition connectionpool_hashtable_remove :: "kstate \<Rightarrow> nat \<Rightarrow> (int \<times> kstate) outcome" where
  "connectionpool_hashtable_remove s connp = connection_remove s connp"

subsection \<open>Get\<close>

text \<open>
  The list walk of \<^verbatim>\<open>connection_get\<close>. The result is the claimed node, if any,
  the flag \<^verbatim>\<open>apd\<close> and the state. A node that is locked and found not ready
  is unlocked again.
\<close>

fun connection_get_scan ::
  "kstate \<Rightarrow> nat list \<Rightarrow> u64 \<Rightarrow> bool \<Rightarrow> (nat option \<times> bool \<times> kstate) outcome" where
  "connection_get_scan s [] now_js apd = Inr (None, apd, s)"
| "connection_get_scan s (c # rest) now_js apd =
     (case nodes s c of
        None \<Rightarrow> Inl BadAccess
      | Some N \<Rightarrow>
          if test_bit_lock (n_flags N) then connection_get_scan s rest now_js False
          else if n_state N = CONN_READY
          then (case n_pool N of
                  Ref pa \<Rightarrow>
                    (case pools s pa of
                       None \<Rightarrow> Inl BadAccess
                     | Some P \<Rightarrow>
                         Inr (Some c, apd,
                           s\<lparr>pools := (pools s)(pa \<mapsto>
                               P\<lparr>p_nr_idle_connections := p_nr_idle_connections P - 1\<rparr>),
                             nodes := (nodes s)(c \<mapsto>
                               N\<lparr>n_flags := set_bit_lock (n_flags N),
                                 n_state := CONN_ACTIVE,
                                 n_tot_js_wait := n_tot_js_wait N + (jiffies s - now_js),
                                 n_now_js := jiffies s,
                                 n_nr_lookups := n_nr_lookups N + 1\<rparr>)\<rparr>))
                | _ \<Rightarrow> Inl BadAccess)
          else connection_get_scan
                 (s\<lparr>nodes := (nodes s)(c \<mapsto>
                     N\<lparr>n_flags := clear_bit_unlock (set_bit_lock (n_flags N))\<rparr>)\<rparr>)
                 rest now_js apd)"

definition connection_get :: "kstate \<Rightarrow> nat \<Rightarrow> u64 \<Rightarrow> (ptr \<times> kstate) outcome" where
  "connection_get s pool now_js =
     (case pools s pool of
        None \<Rightarrow> Inl BadAccess
      | Some P \<Rightarrow>
          (case connection_get_scan s (p_conn_list P) now_js True of
             Inl e \<Rightarrow> Inl e
           | Inr (Some c, apd, s') \<Rightarrow> Inr (Ref c, s')
           | Inr (None, apd, s') \<Rightarrow>
               if p_conn_list P = [] then Inr (ERR_PTR (- ENOENT), s')
               else if apd then Inr (ERR_PTR (- EPIPE), s')
               else Inr (ERR_PTR (- EBUSY), s')))"

subsection \<open>Timed get\<close>

text \<open>
  \<^verbatim>\<open>wait_event_interruptible_timeout\<close> is the kernel's: it gives back the
  remaining ticks (at least 1) when the condition holds, 0 when the time ran out
  with the condition false, and a negative number when a signal ended the wait.
  While the caller sleeps other tasks run, so a wait is a function from the state,
  the pool and the timeout to the value returned and the state found on waking.
\<close>

type_synonym wait_fn = "kstate \<Rightarrow> nat \<Rightarrow> int \<Rightarrow> int \<times> kstate"

definition pool_upd ::
  "(cacheobj_connection_pool \<Rightarrow> cacheobj_connection_pool) \<Rightarrow> kstate \<Rightarrow> nat \<Rightarrow> kstate outcome"
  where
  "pool_upd f s pa =
     (case pools s pa of
        None \<Rightarrow> Inl BadAccess
      | Some P \<Rightarrow> Inr (s\<lparr>pools := (pools s)(pa \<mapsto> f P)\<rparr>))"

text \<open>
  The \<^verbatim>\<open>-EBUSY\<close> case of the switch: the reference on the pool, the count of
  waits, the wait itself and the release of the reference. The result is the new
  timeout and the state.
\<close>

definition timed_get_wait :: "wait_fn \<Rightarrow> kstate \<Rightarrow> nat \<Rightarrow> int \<Rightarrow> (int \<times> kstate) outcome" where
  "timed_get_wait w s pa timeout =
     (case pool_upd (\<lambda>P. P\<lparr>p_upref := p_upref P + 1, p_nr_waits := p_nr_waits P + 1\<rparr>) s pa of
        Inl e \<Rightarrow> Inl e
      | Inr s1 \<Rightarrow>
          (case w s1 pa timeout of
             (timeout', s2) \<Rightarrow>
               (case pool_upd (\<lambda>P. P\<lparr>p_upref := p_upref P - 1\<rparr>) s2 pa of
                  Inl e \<Rightarrow> Inl e
                | Inr s3 \<Rightarrow> Inr (timeout', s3))))"

text \<open>
  The \<^verbatim>\<open>do ... while (timeout >= 0)\<close> loop of \<^verbatim>\<open>connection_timed_get\<close>, with
  the code after it. The first argument bounds the number of iterations: \<open>None\<close>
  says that the loop is still running when the bound is used up. \<open>connp\<close> is the
  local variable of that name, which keeps its value from one iteration to the next.
\<close>

fun timed_get_loop ::
  "kenv \<Rightarrow> wait_fn \<Rightarrow> u64 \<Rightarrow> string option \<Rightarrow> u32 \<Rightarrow> nat \<Rightarrow> kstate \<Rightarrow> int \<Rightarrow> ptr \<Rightarrow>
     (ptr \<times> kstate) outcome option" where
  "timed_get_loop env w now_js ip port 0 s timeout connp = None"
| "timed_get_loop env w now_js ip port (Suc n) s timeout connp =
     (case get_connection_pool env s ip port of
        Inl e \<Rightarrow> Some (Inl e)
      | Inr pool \<Rightarrow>
          if pool = NULL then Some (Inr (connp, s))
          else if IS_ERR pool then Some (Inl AssertFailed)
          else (case pool of
                  Ref pa \<Rightarrow>
                    (case connection_get s pa now_js of
                       Inl e \<Rightarrow> Some (Inl e)
                     | Inr (cp, s1) \<Rightarrow>
                         if \<not> IS_ERR cp then Some (Inr (cp, s1))
                         else if PTR_ERR cp = - ENOENT \<or> PTR_ERR cp = - EPIPE
                         then (case pools s1 pa of
                                 None \<Rightarrow> Some (Inl BadAccess)
                               | Some P \<Rightarrow>
                                   if p_nr_idle_connections P \<noteq> 0 then Some (Inl AssertFailed)
                                   else Some (Inr (if PTR_ERR cp = - ENOENT then NULL else cp, s1)))
                         else if PTR_ERR cp = - EBUSY
                         then (case timed_get_wait w s1 pa timeout of
                                 Inl e \<Rightarrow> Some (Inl e)
                               | Inr (timeout', s2) \<Rightarrow>
                                   if timeout' \<ge> 0
                                   then timed_get_loop env w now_js ip port n s2 timeout' cp
                                   else if timeout' = 0 then Some (Inr (cp, s2))
                                   else Some (Inl AssertFailed))
                         else Some (Inl AssertFailed))
                | _ \<Rightarrow> Some (Inl BadAccess)))"

definition connection_timed_get ::
  "kenv \<Rightarrow> wait_fn \<Rightarrow> nat \<Rightarrow> kstate \<Rightarrow> string option \<Rightarrow> u32 \<Rightarrow> int \<Rightarrow>
     (ptr \<times> kstate) outcome option" where
  "connection_timed_get env w fuel s ip port timeout =
     timed_get_loop env w (jiffies s) ip port fuel s timeout NULL"

text \<open>
  The wait when nothing else happens: no other task touches the table and no signal
  arrives. Following the kernel macro, a condition that already holds gives the
  timeout back (1 for a timeout of 0); otherwise the caller sleeps until the time
  has run out and gets 0.
\<close>

definition wait_undisturbed :: wait_fn where
  "wait_undisturbed s pa timeout =
     (case pools s pa of
        None \<Rightarrow> (0, s)
      | Some P \<Rightarrow>
          if 0 <s p_nr_idle_connections P then (if timeout = 0 then 1 else timeout, s)
          else (0, s\<lparr>jiffies := jiffies s + word_of_int timeout\<rparr>))"

text \<open>A wait ended by a signal: the kernel returns \<^verbatim>\<open>-ERESTARTSYS\<close>.\<close>

definition ERESTARTSYS :: int where "ERESTARTSYS = 512"

definition wait_signalled :: wait_fn where
  "wait_signalled s pa timeout = (- ERESTARTSYS, s)"

subsection \<open>Put\<close>

definition connection_put :: "kstate \<Rightarrow> nat \<Rightarrow> conn_op_t \<Rightarrow> kstate outcome" where
  "connection_put s connp op =
     (case nodes s connp of
        None \<Rightarrow> Inl BadAccess
      | Some N \<Rightarrow>
          if n_state N = CONN_ACTIVE
          then (case connection_node_update_jiffies (jiffies s) N op of
                  Inl e \<Rightarrow> Inl e
                | Inr N1 \<Rightarrow>
                    (case n_pool N of
                       Ref pa \<Rightarrow>
                         (case pools s pa of
                            None \<Rightarrow> Inl BadAccess
                          | Some P \<Rightarrow>
                              Inr (s\<lparr>nodes := (nodes s)(connp \<mapsto>
                                       N1\<lparr>n_state := CONN_READY,
                                          n_flags := clear_bit_unlock (n_flags N1)\<rparr>),
                                     pools := (pools s)(pa \<mapsto>
                                       P\<lparr>p_upref := p_upref P + 1 - 1,
                                         p_nr_idle_connections := p_nr_idle_connections P + 1\<rparr>)\<rparr>))
                     | _ \<Rightarrow> Inl BadAccess))
          else Inr (s\<lparr>nodes := (nodes s)(connp \<mapsto>
                       N\<lparr>n_flags := clear_bit_unlock (n_flags N)\<rparr>)\<rparr>))"

subsection \<open>Derived notions used by the statements\<close>

definition node_locked :: "kstate \<Rightarrow> nat \<Rightarrow> bool" where
  "node_locked s c = (case nodes s c of None \<Rightarrow> False | Some N \<Rightarrow> test_bit_lock (n_flags N))"

definition node_state :: "kstate \<Rightarrow> nat \<Rightarrow> conn_state option" where
  "node_state s c = map_option n_state (nodes s c)"

text \<open>The number of nodes of a list that are in state \<^verbatim>\<open>CONN_READY\<close>.\<close>

definition nr_ready :: "kstate \<Rightarrow> nat list \<Rightarrow> nat" where
  "nr_ready s cs = length (filter (\<lambda>c. node_state s c = Some CONN_READY) cs)"

text \<open>The pools of bucket \<open>b\<close> that belong to the endpoint \<open>(str, port)\<close>.\<close>

definition endpoint_pools :: "kstate \<Rightarrow> nat \<Rightarrow> string \<Rightarrow> u32 \<Rightarrow> nat list" where
  "endpoint_pools s b str port =
     filter (\<lambda>a. case pools s a of
                   None \<Rightarrow> False
                 | Some P \<Rightarrow> p_ip P = str \<and> p_port P = port)
            (buckets s b)"

text \<open>
  The invariant of the idle count for the pool at \<open>pa\<close>: the counter equals the
  number of nodes of the pool's list that are \<^verbatim>\<open>CONN_READY\<close>.
\<close>

definition idle_count_ok :: "kstate \<Rightarrow> nat \<Rightarrow> bool" where
  "idle_count_ok s pa =
     (case pools s pa of
        None \<Rightarrow> True
      | Some P \<Rightarrow> p_nr_idle_connections P = of_nat (nr_ready s (p_conn_list P)))"

text \<open>A table with no pool: what \<^verbatim>\<open>connectionpool_hashtable_init\<close> leaves.\<close>

definition connectionpool_hashtable_init :: "kstate \<Rightarrow> int \<times> kstate" where
  "connectionpool_hashtable_init s = (0, s\<lparr>buckets := (\<lambda>b. [])\<rparr>)"

subsection \<open>A concrete kernel environment and heap, for running the model\<close>

definition env0 :: kenv where
  "env0 = \<lparr>in4_pton = (\<lambda>str. if str = ''10.0.0.1'' then Some 0x0A000001
                            else if str = ''10.0.0.2'' then Some 0x0A000002 else None),
          jhash_2words = (\<lambda>a b c. a XOR b XOR c),
          hash_seed = 0x5EED,
          hash_min = (\<lambda>k. unat (drop_bit 29 (k * 0x61C88647)))\<rparr>"

definition node0 :: cacheobj_connection_node where
  "node0 = \<lparr>n_ip = Some ''10.0.0.1'', n_port = 80, n_state = CONN_DOWN, n_flags = 0,
            n_pool = NULL, n_now_js = 0, n_nr_retry_attempts = 0, n_nr_lookups = 0,
            n_tot_js_get = 0, n_tot_js_put = 0, n_tot_js_wait = 0, n_tx_bytes = 0,
            n_rx_bytes = 0\<rparr>"

definition state0 :: kstate where
  "state0 = \<lparr>buckets = (\<lambda>b. []), pools = Map.empty,
             nodes = [1 \<mapsto> node0, 2 \<mapsto> node0], jiffies = 1000\<rparr>"

definition mem0 :: kalloc where
  "mem0 = \<lparr>kzalloc_pool = Some 7, kstrdup_ok = True\<rparr>"

definition pool1 :: cacheobj_connection_pool where
  "pool1 = \<lparr>p_ip = ''10.0.0.1'', p_port = 80, p_key = 0x0A005EBC, p_conn_list = [1],
            p_wq = [], p_upref = 0, p_nr_connections = 1,
            p_nr_idle_connections = 1, p_nr_waits = 0\<rparr>"

text \<open>\<open>state0\<close> after the insertion of node 1.\<close>

definition state1 :: kstate where
  "state1 = \<lparr>buckets = (\<lambda>b. [])(1 := [7]), pools = [7 \<mapsto> pool1],
             nodes = [1 \<mapsto> node0\<lparr>n_pool := Ref 7, n_state := CONN_READY\<rparr>, 2 \<mapsto> node0],
             jiffies = 1000\<rparr>"

text \<open>\<open>state1\<close> after a successful \<^verbatim>\<open>connection_timed_get\<close> of node 1.\<close>

definition pool2 :: cacheobj_connection_pool where
  "pool2 = pool1\<lparr>p_nr_idle_connections := 0\<rparr>"

definition node2 :: cacheobj_connection_node where
  "node2 = node0\<lparr>n_pool := Ref 7, n_state := CONN_ACTIVE, n_flags := 1, n_now_js := 1000,
                 n_nr_lookups := 1\<rparr>"

definition state2 :: kstate where
  "state2 = \<lparr>buckets = (\<lambda>b. [])(1 := [7]), pools = [7 \<mapsto> pool2],
             nodes = [1 \<mapsto> node2, 2 \<mapsto> node0], jiffies = 1000\<rparr>"

text \<open>
  A pool of three nodes: node 3 is held by a task, node 4 has failed, node 5 is
  ready and free.
\<close>

definition node_at :: "conn_state \<Rightarrow> u64 \<Rightarrow> cacheobj_connection_node" where
  "node_at st fl = node0\<lparr>n_pool := Ref 7, n_state := st, n_flags := fl\<rparr>"

definition state3 :: kstate where
  "state3 = \<lparr>buckets = (\<lambda>b. [])(1 := [7]),
             pools = [7 \<mapsto> pool1\<lparr>p_conn_list := [3, 4, 5], p_nr_connections := 3\<rparr>],
             nodes = [3 \<mapsto> node_at CONN_ACTIVE 1, 4 \<mapsto> node_at CONN_FAILED 0,
                      5 \<mapsto> node_at CONN_READY 0],
             jiffies = 1000\<rparr>"

text \<open>A second allocator result, and the pool that the allocation builds.\<close>

definition mem1 :: kalloc where
  "mem1 = \<lparr>kzalloc_pool = Some 8, kstrdup_ok = True\<rparr>"

definition pool0 :: cacheobj_connection_pool where
  "pool0 = pool1\<lparr>p_conn_list := [], p_nr_connections := 0, p_nr_idle_connections := 0\<rparr>"

text \<open>
  \<open>state1\<close> after the removal of node 1, and that state after a
  \<^verbatim>\<open>connection_put\<close> of the removed node.
\<close>

definition state1_removed :: kstate where
  "state1_removed =
     \<lparr>buckets = (\<lambda>b. [])(1 := [7]), pools = [7 \<mapsto> pool0],
      nodes = [1 \<mapsto> node0\<lparr>n_pool := Ref 7, n_state := CONN_ZOMBIE, n_flags := 1\<rparr>,
               2 \<mapsto> node0],
      jiffies = 1000\<rparr>"

definition state1_released :: kstate where
  "state1_released =
     \<lparr>buckets = (\<lambda>b. [])(1 := [7]), pools = [7 \<mapsto> pool0],
      nodes = [1 \<mapsto> node0\<lparr>n_pool := Ref 7, n_state := CONN_ZOMBIE, n_flags := 0\<rparr>,
               2 \<mapsto> node0],
      jiffies = 1000\<rparr>"

section \<open>Properties\<close>

lemmas errno_defs = ENOENT_def ENOMEM_def EBUSY_def EINVAL_def EPIPE_def MAX_ERRNO_def

subsection \<open>The lock bit\<close>

lemma test_set_bit_lock [simp]: "test_bit_lock (set_bit_lock fl)"
  by (simp add: test_bit_lock_def set_bit_lock_def CONN_LOCKED_def bit_set_bit_iff)

lemma test_clear_bit_unlock [simp]: "\<not> test_bit_lock (clear_bit_unlock fl)"
  by (simp add: test_bit_lock_def clear_bit_unlock_def bit_unset_bit_iff)

lemma lock_then_unlock: "\<not> test_bit_lock fl \<Longrightarrow> clear_bit_unlock (set_bit_lock fl) = fl"
  by (rule bit_eqI)
     (auto simp add: test_bit_lock_def clear_bit_unlock_def set_bit_lock_def
        bit_unset_bit_iff bit_set_bit_iff)

lemma set_when_locked: "test_bit_lock fl \<Longrightarrow> set_bit_lock fl = fl"
  by (rule bit_eqI) (auto simp add: test_bit_lock_def set_bit_lock_def bit_set_bit_iff)

lemma kstate_nodes_same: "nodes s c = Some N \<Longrightarrow> s\<lparr>nodes := (nodes s)(c \<mapsto> N)\<rparr> = s"
  by (simp add: fun_upd_idem)

subsection \<open>The concrete environment\<close>

lemma hash0: "ipv4_hash32 env0 (Some ''10.0.0.1'') 80 k = (0, 0x0A005EBC)"
  by (simp add: ipv4_hash32_def hashfn_def env0_def)

lemma bkt0: "hash_min env0 0x0A005EBC = 1"
  by (simp add: env0_def)

lemma insert_state0: "connectionpool_hashtable_insert env0 mem0 state0 1 = Inr (0, state1)"
  by (simp add: connectionpool_hashtable_insert_def state0_def node0_def mem0_def
      get_connection_pool_def hash0 bkt0 connection_pool_alloc_def insert_after_alloc_def
      ERR_PTR_def IS_ERR_def errno_defs hash_add_def insert_attach_def state1_def pool1_def
      fun_eq_iff)

subsection \<open>Remove\<close>

lemma lock_bit_values:
  "set_bit_lock 0 = 1" "set_bit_lock 1 = 1" "clear_bit_unlock 1 = 0" "clear_bit_unlock 0 = 0"
  "test_bit_lock 1" "\<not> test_bit_lock 0"
  by (simp_all add: set_bit_lock_def clear_bit_unlock_def test_bit_lock_def CONN_LOCKED_def
      set_bit_eq_or unset_bit_eq_and_not)

text \<open>
  C10, as the code has it. When remove returns 0 on a node it has taken
  \<^verbatim>\<open>CONN_LOCKED\<close> and it returns without giving the bit back: in the state
  that remove leaves, the bit of the node is set, and a remove of the same node in
  that state returns \<^verbatim>\<open>-EBUSY\<close> and changes nothing.
\<close>

theorem remove_leaves_conn_locked:
  assumes "connectionpool_hashtable_remove s connp = Inr (0, s')"
  shows "node_locked s' connp \<and>
         connectionpool_hashtable_remove s' connp = Inr (- EBUSY, s')"
proof -
  from assms obtain N where N: "nodes s connp = Some N"
    by (auto simp: connectionpool_hashtable_remove_def connection_remove_def
        split: option.splits)
  from assms N have nl: "\<not> test_bit_lock (n_flags N)"
    by (auto simp: connectionpool_hashtable_remove_def connection_remove_def EBUSY_def
        split: if_splits)
  from assms N nl obtain N' where N': "nodes s' connp = Some N'" "test_bit_lock (n_flags N')"
    by (auto simp: connectionpool_hashtable_remove_def connection_remove_def
        split: if_splits ptr.splits option.splits)
  then show ?thesis
    by (simp add: node_locked_def connectionpool_hashtable_remove_def connection_remove_def)
qed

lemma remove_state1: "connectionpool_hashtable_remove state1 1 = Inr (0, state1_removed)"
  by (simp add: connectionpool_hashtable_remove_def connection_remove_def state1_def
      state1_removed_def node0_def pool1_def pool0_def lock_bit_values fun_eq_iff)

theorem remove_leaves_conn_locked_witness:
  "connectionpool_hashtable_remove state1 1 = Inr (0, state1_removed) \<and>
   node_locked state1_removed 1 \<and>
   connectionpool_hashtable_remove state1_removed 1 = Inr (- EBUSY, state1_removed)"
  using remove_leaves_conn_locked [OF remove_state1] remove_state1 by simp

text \<open>
  C10, as the specification words it, fails: the bit is not set for good, and a
  later attempt to lock the node need not end in \<^verbatim>\<open>-EBUSY\<close>. After the
  removal of node 1, \<^verbatim>\<open>cacheobj_connection_node_retry\<close> on the node fails its
  assertion; \<^verbatim>\<open>connection_put\<close> on the node, which is no longer
  \<^verbatim>\<open>CONN_ACTIVE\<close>, clears the bit; and a remove after that takes the lock
  and goes on to \<^verbatim>\<open>list_del\<close> on the unlinked node.
\<close>

theorem remove_lock_not_permanent:
  "connectionpool_hashtable_remove state1 1 = Inr (0, state1_removed) \<and>
   node_locked state1_removed 1 \<and>
   on_node cacheobj_connection_node_retry state1_removed 1 = Inl AssertFailed \<and>
   connection_put state1_removed 1 GET = Inr state1_released \<and>
   \<not> node_locked state1_released 1 \<and>
   connectionpool_hashtable_remove state1_released 1 = Inl BadAccess \<and>
   connectionpool_hashtable_remove state1_released 1 \<noteq> Inr (- EBUSY, state1_released)"
proof -
  have a: "node_locked state1_removed 1"
    by (simp add: node_locked_def state1_removed_def lock_bit_values)
  have b: "on_node cacheobj_connection_node_retry state1_removed 1 = Inl AssertFailed"
    by (simp add: on_node_def state1_removed_def cacheobj_connection_node_retry_def
        lock_bit_values)
  have c: "connection_put state1_removed 1 GET = Inr state1_released"
    by (simp add: connection_put_def state1_removed_def state1_released_def lock_bit_values
        fun_eq_iff)
  have d: "\<not> node_locked state1_released 1"
    by (simp add: node_locked_def state1_released_def lock_bit_values)
  have e: "connectionpool_hashtable_remove state1_released 1 = Inl BadAccess"
    by (simp add: connectionpool_hashtable_remove_def connection_remove_def
        state1_released_def node0_def pool1_def pool0_def lock_bit_values)
  from remove_state1 a b c d e show ?thesis by simp
qed

subsection \<open>Put\<close>

text \<open>
  C7. \<^verbatim>\<open>connection_put\<close> on a node in state \<^verbatim>\<open>CONN_ACTIVE\<close> adds
  (now - now\_js) to \<^verbatim>\<open>tot_js_get\<close> for \<^verbatim>\<open>GET\<close> or to
  \<^verbatim>\<open>tot_js_put\<close> for \<^verbatim>\<open>PUT\<close>, sets the state to \<^verbatim>\<open>CONN_READY\<close>,
  adds one to the pool's \<^verbatim>\<open>nr_idle_connections\<close>, clears
  \<^verbatim>\<open>CONN_LOCKED\<close> and leaves the pool's \<^verbatim>\<open>upref\<close> as it was (nothing of
  the pool but the idle count changes). On a node in any other state it clears
  \<^verbatim>\<open>CONN_LOCKED\<close> and changes nothing else.
\<close>

theorem connection_put_behaviour:
  assumes "nodes s connp = Some N"
  shows "(n_state N = CONN_ACTIVE \<longrightarrow> n_pool N = Ref pa \<longrightarrow> pools s pa = Some P \<longrightarrow>
            op \<noteq> OP_OTHER \<longrightarrow>
            connection_put s connp op =
              Inr (s\<lparr>nodes := (nodes s)(connp \<mapsto>
                       N\<lparr>n_tot_js_get := (if op = GET then n_tot_js_get N + (jiffies s - n_now_js N)
                                           else n_tot_js_get N),
                         n_tot_js_put := (if op = PUT then n_tot_js_put N + (jiffies s - n_now_js N)
                                           else n_tot_js_put N),
                         n_state := CONN_READY,
                         n_flags := clear_bit_unlock (n_flags N)\<rparr>),
                     pools := (pools s)(pa \<mapsto>
                       P\<lparr>p_nr_idle_connections := p_nr_idle_connections P + 1\<rparr>)\<rparr>)) \<and>
         (n_state N \<noteq> CONN_ACTIVE \<longrightarrow>
            connection_put s connp op =
              Inr (s\<lparr>nodes := (nodes s)(connp \<mapsto> N\<lparr>n_flags := clear_bit_unlock (n_flags N)\<rparr>)\<rparr>))"
  using assms
  by (cases op) (simp_all add: connection_put_def connection_node_update_jiffies_def)

theorem connection_put_behaviour_witness:
  "(\<exists>s'. connection_put (state2\<lparr>jiffies := 1005\<rparr>) 1 GET = Inr s' \<and>
         map_option n_tot_js_get (nodes s' 1) = Some 5 \<and>
         map_option n_tot_js_put (nodes s' 1) = Some 0 \<and>
         node_state s' 1 = Some CONN_READY \<and> \<not> node_locked s' 1 \<and>
         map_option p_nr_idle_connections (pools s' 7) = Some 1 \<and>
         map_option p_upref (pools s' 7) = Some 0) \<and>
   connection_put state1 1 PUT =
     Inr (state1\<lparr>nodes := (nodes state1)(1 \<mapsto>
            node0\<lparr>n_pool := Ref 7, n_state := CONN_READY, n_flags := clear_bit_unlock 0\<rparr>)\<rparr>)"
  using connection_put_behaviour [of "state2\<lparr>jiffies := 1005\<rparr>" 1 node2 7 pool2 GET]
    connection_put_behaviour [of state1 1 "node0\<lparr>n_pool := Ref 7, n_state := CONN_READY\<rparr>" 7 pool1 PUT]
  by (simp add: state2_def node2_def pool2_def pool1_def node0_def state1_def node_state_def
      node_locked_def)

subsection \<open>The list walk of connection\_get\<close>

lemma connection_get_scan_none:
  assumes "\<forall>c \<in> set cs. \<exists>N. nodes s c = Some N"
      and "find (\<lambda>c. \<not> node_locked s c \<and> node_state s c = Some CONN_READY) cs = None"
  shows "connection_get_scan s cs now_js apd =
           Inr (None, apd \<and> (\<forall>c \<in> set cs. \<not> node_locked s c), s)"
  using assms
proof (induction cs arbitrary: apd)
  case Nil
  then show ?case by simp
next
  case (Cons c cs)
  then obtain N where N: "nodes s c = Some N" by auto
  show ?case
  proof (cases "test_bit_lock (n_flags N)")
    case True
    with Cons N show ?thesis by (simp add: node_locked_def)
  next
    case False
    with Cons.prems N have nr: "n_state N \<noteq> CONN_READY"
      by (auto simp: node_locked_def node_state_def)
    from False N have same: "s\<lparr>nodes := (nodes s)(c \<mapsto>
                     N\<lparr>n_flags := clear_bit_unlock (set_bit_lock (n_flags N))\<rparr>)\<rparr> = s"
      by (simp add: lock_then_unlock kstate_nodes_same)
    from Cons N False nr same show ?thesis
      by (simp add: node_locked_def node_state_def)
  qed
qed

lemma connection_get_scan_some:
  assumes "\<forall>c \<in> set cs. \<exists>N. nodes s c = Some N"
      and "find (\<lambda>c. \<not> node_locked s c \<and> node_state s c = Some CONN_READY) cs = Some c"
      and "nodes s c = Some N" and "n_pool N = Ref pa" and "pools s pa = Some P"
  shows "\<exists>apd'. connection_get_scan s cs now_js apd =
           Inr (Some c, apd',
                s\<lparr>pools := (pools s)(pa \<mapsto>
                    P\<lparr>p_nr_idle_connections := p_nr_idle_connections P - 1\<rparr>),
                  nodes := (nodes s)(c \<mapsto>
                    N\<lparr>n_flags := set_bit_lock (n_flags N),
                      n_state := CONN_ACTIVE,
                      n_tot_js_wait := n_tot_js_wait N + (jiffies s - now_js),
                      n_now_js := jiffies s,
                      n_nr_lookups := n_nr_lookups N + 1\<rparr>)\<rparr>)"
  using assms(1,2)
proof (induction cs arbitrary: apd)
  case Nil
  then show ?case by simp
next
  case (Cons d cs)
  then obtain M where M: "nodes s d = Some M" by auto
  show ?case
  proof (cases "\<not> node_locked s d \<and> node_state s d = Some CONN_READY")
    case True
    with Cons.prems have "d = c" by simp
    with True M assms(3-5) show ?thesis
      by (intro exI [of _ apd]) (simp add: node_locked_def node_state_def fun_upd_def)
  next
    case False
    with Cons.prems have f: "find (\<lambda>c. \<not> node_locked s c \<and> node_state s c = Some CONN_READY) cs = Some c"
      by simp
    show ?thesis
    proof (cases "test_bit_lock (n_flags M)")
      case True
      with Cons M f show ?thesis by simp
    next
      case nl: False
      with False M have nr: "n_state M \<noteq> CONN_READY"
        by (auto simp: node_locked_def node_state_def)
      from nl M have same: "s\<lparr>nodes := (nodes s)(d \<mapsto>
                     M\<lparr>n_flags := clear_bit_unlock (set_bit_lock (n_flags M))\<rparr>)\<rparr> = s"
        by (simp add: lock_then_unlock kstate_nodes_same)
      from Cons M f nl nr same show ?thesis by simp
    qed
  qed
qed


text \<open>
  C6. On a pool whose list holds live nodes of that pool, \<^verbatim>\<open>connection_get\<close>
  returns the first node of the list that is not locked and is
  \<^verbatim>\<open>CONN_READY\<close>, with that node made \<^verbatim>\<open>CONN_ACTIVE\<close>,
  \<^verbatim>\<open>CONN_LOCKED\<close> set, the wait latency added, \<^verbatim>\<open>now_js\<close> stamped,
  \<^verbatim>\<open>nr_lookups\<close> incremented and the pool's \<^verbatim>\<open>nr_idle_connections\<close>
  decremented. When there is no such node it changes nothing and returns
  \<^verbatim>\<open>-ENOENT\<close> for an empty list, \<^verbatim>\<open>-EPIPE\<close> when no node of the list was
  locked, and \<^verbatim>\<open>-EBUSY\<close> when some node was skipped as locked.
\<close>

theorem connection_get_classification:
  assumes P: "pools s pa = Some P"
      and wf: "\<forall>c \<in> set (p_conn_list P). \<exists>N. nodes s c = Some N \<and> n_pool N = Ref pa"
  shows "connection_get s pa now_js =
     (case find (\<lambda>c. \<not> node_locked s c \<and> node_state s c = Some CONN_READY) (p_conn_list P) of
        Some c \<Rightarrow>
          (case nodes s c of
             Some N \<Rightarrow>
               Inr (Ref c,
                    s\<lparr>pools := (pools s)(pa \<mapsto>
                        P\<lparr>p_nr_idle_connections := p_nr_idle_connections P - 1\<rparr>),
                      nodes := (nodes s)(c \<mapsto>
                        N\<lparr>n_flags := set_bit_lock (n_flags N),
                          n_state := CONN_ACTIVE,
                          n_tot_js_wait := n_tot_js_wait N + (jiffies s - now_js),
                          n_now_js := jiffies s,
                          n_nr_lookups := n_nr_lookups N + 1\<rparr>)\<rparr>)
           | None \<Rightarrow> Inl BadAccess)
      | None \<Rightarrow>
          Inr (ERR_PTR (if p_conn_list P = [] then - ENOENT
                        else if \<forall>c \<in> set (p_conn_list P). \<not> node_locked s c then - EPIPE
                        else - EBUSY), s))"
proof -
  from wf have ex: "\<forall>c \<in> set (p_conn_list P). \<exists>N. nodes s c = Some N" by blast
  show ?thesis
  proof (cases "find (\<lambda>c. \<not> node_locked s c \<and> node_state s c = Some CONN_READY) (p_conn_list P)")
    case None
    from connection_get_scan_none [OF ex None, of now_js True] P None show ?thesis
      by (simp add: connection_get_def)
  next
    case (Some c)
    then have "c \<in> set (p_conn_list P)" by (auto simp: find_Some_iff)
    with wf obtain N where N: "nodes s c = Some N" "n_pool N = Ref pa" by blast
    from connection_get_scan_some [OF ex Some N P, of now_js True] obtain apd' where
      "connection_get_scan s (p_conn_list P) now_js True =
         Inr (Some c, apd',
                s\<lparr>pools := (pools s)(pa \<mapsto>
                    P\<lparr>p_nr_idle_connections := p_nr_idle_connections P - 1\<rparr>),
                  nodes := (nodes s)(c \<mapsto>
                    N\<lparr>n_flags := set_bit_lock (n_flags N),
                      n_state := CONN_ACTIVE,
                      n_tot_js_wait := n_tot_js_wait N + (jiffies s - now_js),
                      n_now_js := jiffies s,
                      n_nr_lookups := n_nr_lookups N + 1\<rparr>)\<rparr>)" by blast
    with P Some N show ?thesis by (simp add: connection_get_def)
  qed
qed

theorem connection_get_classification_witness:
  "(\<exists>s'. connection_get state3 7 990 = Inr (Ref 5, s') \<and>
         node_state s' 5 = Some CONN_ACTIVE \<and> node_locked s' 5 \<and>
         map_option n_tot_js_wait (nodes s' 5) = Some 10 \<and>
         map_option n_nr_lookups (nodes s' 5) = Some 1 \<and>
         map_option p_nr_idle_connections (pools s' 7) = Some 0) \<and>
   connection_get state2 7 990 = Inr (ERR_PTR (- EBUSY), state2)"
  using connection_get_classification
      [of state3 7 "pool1\<lparr>p_conn_list := [3, 4, 5], p_nr_connections := 3\<rparr>" 990]
    connection_get_classification [of state2 7 pool2 990]
  by (simp add: state3_def state2_def pool1_def pool2_def node2_def node_at_def node0_def
      node_locked_def node_state_def test_bit_lock_def set_bit_lock_def CONN_LOCKED_def
      bit_set_bit_iff)

subsection \<open>Lookup and the round trip insert, get, put, get\<close>

lemma chain_find_cong:
  assumes "\<forall>a \<in> set chain. map_option (\<lambda>P. (p_ip P, p_port P, p_key P)) (pools s' a) =
                             map_option (\<lambda>P. (p_ip P, p_port P, p_key P)) (pools s a)"
  shows "chain_find s' chain ip port key = chain_find s chain ip port key"
  using assms
proof (induction chain)
  case Nil
  then show ?case by simp
next
  case (Cons a chain)
  then have "map_option (\<lambda>P. (p_ip P, p_port P, p_key P)) (pools s' a) =
             map_option (\<lambda>P. (p_ip P, p_port P, p_key P)) (pools s a)" by simp
  with Cons show ?case
    by (cases "pools s a"; cases "pools s' a") auto
qed

lemma get_connection_pool_cong:
  assumes "buckets s' = buckets s"
      and "\<forall>a. map_option (\<lambda>P. (p_ip P, p_port P, p_key P)) (pools s' a) =
               map_option (\<lambda>P. (p_ip P, p_port P, p_key P)) (pools s a)"
  shows "get_connection_pool env s' ip port = get_connection_pool env s ip port"
proof -
  have "chain_find s' chain str port key = chain_find s chain str port key" for chain str key
    by (rule chain_find_cong) (simp add: assms(2))
  with assms(1) show ?thesis
    by (simp add: get_connection_pool_def split: prod.splits option.splits)
qed

lemma timed_get_claims_head:
  assumes look: "get_connection_pool env s ip port = Inr (Ref pa)"
      and P: "pools s pa = Some P" and l: "p_conn_list P = c # rest"
      and N: "nodes s c = Some N" "\<not> test_bit_lock (n_flags N)" "n_state N = CONN_READY"
             "n_pool N = Ref pa"
  shows "connection_timed_get env w (Suc k) s ip port timeout =
           Some (Inr (Ref c,
             s\<lparr>pools := (pools s)(pa \<mapsto>
                 P\<lparr>p_nr_idle_connections := p_nr_idle_connections P - 1\<rparr>),
               nodes := (nodes s)(c \<mapsto>
                 N\<lparr>n_flags := set_bit_lock (n_flags N),
                   n_state := CONN_ACTIVE,
                   n_tot_js_wait := n_tot_js_wait N + (jiffies s - jiffies s),
                   n_now_js := jiffies s,
                   n_nr_lookups := n_nr_lookups N + 1\<rparr>)\<rparr>))"
  using assms
  by (simp add: connection_timed_get_def connection_get_def IS_ERR_def)


lemma node_init_fresh:
  assumes "cacheobj_connection_node_init N0 ip port dup_ok = Inr (0, N)"
  shows "n_ip N = ip \<and> ip \<noteq> None \<and> n_port N = port \<and> \<not> test_bit_lock (n_flags N) \<and>
         n_state N = CONN_DOWN \<and> n_pool N = NULL"
  using assms
  by (auto simp: cacheobj_connection_node_init_def connection_node_reset_stats_def ENOMEM_def
      test_bit_lock_def split: option.splits if_splits)

lemma insert_into_empty:
  assumes node: "nodes s n = Some N"
      and empty: "buckets s = (\<lambda>b. [])"
      and ins: "connectionpool_hashtable_insert env m s n = Inr (0, s1)"
  shows "\<exists>a P1 N1. get_connection_pool env s1 (n_ip N) (n_port N) = Inr (Ref a) \<and>
           pools s1 a = Some P1 \<and> p_conn_list P1 = [n] \<and>
           nodes s1 n = Some N1 \<and> n_flags N1 = n_flags N \<and> n_state N1 = CONN_READY \<and>
           n_pool N1 = Ref a"
proof -
  from ins node empty obtain str d where ip: "n_ip N = Some str" "in4_pton env str = Some d"
    by (auto simp: connectionpool_hashtable_insert_def get_connection_pool_def ipv4_hash32_def
        ERR_PTR_def IS_ERR_def errno_defs insert_attach_def
        split: option.splits if_splits)
  with empty have look: "get_connection_pool env s (n_ip N) (n_port N) = Inr NULL"
    by (simp add: get_connection_pool_def ipv4_hash32_def)
  from ins node look obtain a where a: "kzalloc_pool m = Some a" "kstrdup_ok m"
    by (auto simp: connectionpool_hashtable_insert_def connection_pool_alloc_def
        insert_after_alloc_def hash_add_def ERR_PTR_def IS_ERR_def errno_defs
        split: option.splits if_splits)
  from ins node look a ip empty show ?thesis
    by (auto simp: connectionpool_hashtable_insert_def connection_pool_alloc_def
        insert_after_alloc_def hash_add_def ERR_PTR_def IS_ERR_def errno_defs ipv4_hash32_def
        insert_attach_def get_connection_pool_def)
qed

text \<open>
  C8. A node fresh from \<^verbatim>\<open>cacheobj_connection_node_init\<close> is inserted into a table
  with no pool and the insertion returns 0. Then \<^verbatim>\<open>connection_timed_get\<close> for
  the node's endpoint returns that very node, \<^verbatim>\<open>CONN_ACTIVE\<close> and with
  \<^verbatim>\<open>CONN_LOCKED\<close> set, on its first pass through the loop, whatever the timeout
  and whatever a wait would do; and after \<^verbatim>\<open>connection_put\<close> of the node with
  \<^verbatim>\<open>GET\<close>, a second \<^verbatim>\<open>connection_timed_get\<close> returns the same node again.
\<close>

theorem insert_get_put_get_round_trip:
  assumes fresh: "cacheobj_connection_node_init N0 ip port dup_ok = Inr (0, N)"
      and empty: "buckets s = (\<lambda>b. [])"
      and node: "nodes s n = Some N"
      and ins: "connectionpool_hashtable_insert env m s n = Inr (0, s1)"
  shows "\<exists>s2 s3 s4.
       connection_timed_get env w (Suc k) s1 ip port timeout = Some (Inr (Ref n, s2)) \<and>
       node_state s2 n = Some CONN_ACTIVE \<and> node_locked s2 n \<and>
       connection_put s2 n GET = Inr s3 \<and>
       connection_timed_get env w' (Suc k') s3 ip port timeout' = Some (Inr (Ref n, s4)) \<and>
       node_state s4 n = Some CONN_ACTIVE \<and> node_locked s4 n"
proof -
  from node_init_fresh [OF fresh] have N: "n_ip N = ip" "n_port N = port"
    "\<not> test_bit_lock (n_flags N)" by simp_all
  from insert_into_empty [OF node empty ins] N obtain a P1 N1 where
    look1: "get_connection_pool env s1 ip port = Inr (Ref a)" and
    P1: "pools s1 a = Some P1" "p_conn_list P1 = [n]" and
    N1: "nodes s1 n = Some N1" "\<not> test_bit_lock (n_flags N1)" "n_state N1 = CONN_READY"
        "n_pool N1 = Ref a"
    by auto
  define P2 where "P2 = P1\<lparr>p_nr_idle_connections := p_nr_idle_connections P1 - 1\<rparr>"
  define N2 where "N2 = N1\<lparr>n_flags := set_bit_lock (n_flags N1), n_state := CONN_ACTIVE,
                   n_tot_js_wait := n_tot_js_wait N1 + (jiffies s1 - jiffies s1),
                   n_now_js := jiffies s1, n_nr_lookups := n_nr_lookups N1 + 1\<rparr>"
  define s2 where "s2 = s1\<lparr>pools := (pools s1)(a \<mapsto> P2), nodes := (nodes s1)(n \<mapsto> N2)\<rparr>"
  have get1: "connection_timed_get env w (Suc k) s1 ip port timeout = Some (Inr (Ref n, s2))"
    using timed_get_claims_head [OF look1 P1 N1, of w k timeout]
    by (simp add: s2_def P2_def N2_def)
  have obs2: "node_state s2 n = Some CONN_ACTIVE \<and> node_locked s2 n"
    by (simp add: s2_def N2_def node_state_def node_locked_def)
  define P3 where "P3 = P2\<lparr>p_upref := p_upref P2 + 1 - 1,
                            p_nr_idle_connections := p_nr_idle_connections P2 + 1\<rparr>"
  define N3 where "N3 = N2\<lparr>n_tot_js_get := n_tot_js_get N2 + (jiffies s2 - n_now_js N2),
                    n_state := CONN_READY, n_flags := clear_bit_unlock (n_flags N2)\<rparr>"
  define s3 where "s3 = s2\<lparr>nodes := (nodes s2)(n \<mapsto> N3), pools := (pools s2)(a \<mapsto> P3)\<rparr>"
  have put: "connection_put s2 n GET = Inr s3"
    using N1 by (simp add: connection_put_def connection_node_update_jiffies_def s2_def
        N2_def s3_def N3_def P3_def)
  have "get_connection_pool env s3 ip port = get_connection_pool env s1 ip port"
    by (rule get_connection_pool_cong) (simp_all add: s3_def s2_def P3_def P2_def P1)
  with look1 have look3: "get_connection_pool env s3 ip port = Inr (Ref a)" by simp
  have P3: "pools s3 a = Some P3" "p_conn_list P3 = [n]"
    by (simp_all add: s3_def P3_def P2_def P1)
  have N3: "nodes s3 n = Some N3" "\<not> test_bit_lock (n_flags N3)" "n_state N3 = CONN_READY"
        "n_pool N3 = Ref a"
    by (simp_all add: s3_def N3_def N2_def N1)
  from timed_get_claims_head [OF look3 P3 N3, of w' k' timeout'] obtain s4 where
    get3: "connection_timed_get env w' (Suc k') s3 ip port timeout' = Some (Inr (Ref n, s4))"
    and N4: "nodes s4 n = Some (N3\<lparr>n_flags := set_bit_lock (n_flags N3),
                   n_state := CONN_ACTIVE,
                   n_tot_js_wait := n_tot_js_wait N3 + (jiffies s3 - jiffies s3),
                   n_now_js := jiffies s3,
                   n_nr_lookups := n_nr_lookups N3 + 1\<rparr>)"
    by simp
  from N4 have obs4: "node_state s4 n = Some CONN_ACTIVE \<and> node_locked s4 n"
    by (simp add: node_state_def node_locked_def)
  from get1 obs2 put get3 obs4 show ?thesis by blast
qed

theorem insert_get_put_get_round_trip_witness:
  "cacheobj_connection_node_init node0 (Some ''10.0.0.1'') 80 True = Inr (0, node0) \<and>
   connectionpool_hashtable_insert env0 mem0 state0 1 = Inr (0, state1) \<and>
   (\<exists>s2 s3 s4.
       connection_timed_get env0 wait_undisturbed (Suc 0) state1 (Some ''10.0.0.1'') 80 100 =
         Some (Inr (Ref 1, s2)) \<and>
       node_state s2 1 = Some CONN_ACTIVE \<and> node_locked s2 1 \<and>
       connection_put s2 1 GET = Inr s3 \<and>
       connection_timed_get env0 wait_undisturbed (Suc 0) s3 (Some ''10.0.0.1'') 80 100 =
         Some (Inr (Ref 1, s4)) \<and>
       node_state s4 1 = Some CONN_ACTIVE \<and> node_locked s4 1)"
proof -
  have h1: "cacheobj_connection_node_init node0 (Some ''10.0.0.1'') 80 True = Inr (0, node0)"
    by (simp add: cacheobj_connection_node_init_def connection_node_reset_stats_def node0_def)
  have h2: "buckets state0 = (\<lambda>b. [])" by (simp add: state0_def)
  have h3: "nodes state0 1 = Some node0" by (simp add: state0_def)
  from insert_get_put_get_round_trip [OF h1 h2 h3 insert_state0,
      of wait_undisturbed 0 100 wait_undisturbed 0 100] h1 insert_state0
  show ?thesis by simp
qed

subsection \<open>Timed get with a malformed address\<close>

text \<open>
  C4 fails on the code. For a literal that \<^verbatim>\<open>in4_pton\<close> rejects, the lookup
  gives \<^verbatim>\<open>ERR_PTR(-EINVAL)\<close>, which is not \<^verbatim>\<open>NULL\<close>, so
  \<^verbatim>\<open>connection_timed_get\<close> does not leave through its \<^verbatim>\<open>!pool\<close> exit
  and runs into its own \<^verbatim>\<open>CONNTBL_ASSERT(!IS_ERR(pool))\<close> on the first pass
  through the loop: the error that the lookup built is not returned to the caller.
\<close>

theorem timed_get_malformed_ip_asserts:
  assumes "in4_pton env str = None"
  shows "get_connection_pool env s (Some str) port = Inr (ERR_PTR (- EINVAL)) \<and>
         connection_timed_get env w (Suc k) s (Some str) port timeout = Some (Inl AssertFailed)"
  using assms
  by (simp add: connection_timed_get_def get_connection_pool_def ipv4_hash32_def ERR_PTR_def
      IS_ERR_def errno_defs)

theorem timed_get_malformed_ip_asserts_witness:
  "in4_pton env0 ''localhost'' = None \<and>
   get_connection_pool env0 state1 (Some ''localhost'') 80 = Inr (ERR_PTR (- EINVAL)) \<and>
   connection_timed_get env0 wait_undisturbed (Suc 4) state1 (Some ''localhost'') 80 100 =
     Some (Inl AssertFailed)"
proof -
  have h: "in4_pton env0 ''localhost'' = None" by (simp add: env0_def)
  from timed_get_malformed_ip_asserts [OF h, of state1 80 wait_undisturbed 4 100] h
  show ?thesis by simp
qed

text \<open>
  With the table holding one pool, the call with the host name \<open>localhost\<close> ends
  in the failed assertion and not in the return of \<^verbatim>\<open>ERR_PTR(-EINVAL)\<close>.
\<close>

lemma timed_get_malformed_ip_no_einval:
  "connection_timed_get env0 wait_undisturbed 1 state1 (Some ''localhost'') 80 100 =
     Some (Inl AssertFailed) \<and>
   connection_timed_get env0 wait_undisturbed 1 state1 (Some ''localhost'') 80 100 \<noteq>
     Some (Inr (ERR_PTR (- EINVAL), state1))"
  by (simp add: connection_timed_get_def get_connection_pool_def ipv4_hash32_def ERR_PTR_def
      IS_ERR_def errno_defs env0_def)

subsection \<open>Insert when the allocation fails\<close>

text \<open>
  C3 fails on the code. When the endpoint has no pool and \<^verbatim>\<open>kzalloc\<close> or
  \<^verbatim>\<open>kstrdup\<close> fails, \<^verbatim>\<open>__connection_pool_alloc\<close> returns
  \<^verbatim>\<open>ERR_PTR(-err)\<close> with \<open>err = -ENOMEM\<close>, the pointer of value 12, which
  \<^verbatim>\<open>IS_ERR\<close> does not recognise. Insert therefore does not return
  \<^verbatim>\<open>-ENOMEM\<close>: it goes on to \<^verbatim>\<open>hash_add\<close> and reads the key through
  that pointer.
\<close>

theorem insert_alloc_failure_not_reported:
  assumes "nodes s connp = Some N"
      and "get_connection_pool env s (n_ip N) (n_port N) = Inr NULL"
      and "kzalloc_pool m = None \<or> \<not> kstrdup_ok m"
  shows "connection_pool_alloc env m s (n_ip N) (n_port N) = (IntPtr ENOMEM, s) \<and>
         \<not> IS_ERR (IntPtr ENOMEM) \<and>
         connectionpool_hashtable_insert env m s connp = Inl BadAccess"
  using assms
  by (auto simp: connectionpool_hashtable_insert_def connection_pool_alloc_def
      insert_after_alloc_def hash_add_def ERR_PTR_def IS_ERR_def errno_defs
      split: option.splits)

theorem insert_alloc_failure_not_reported_witness:
  "connection_pool_alloc env0 (mem0\<lparr>kzalloc_pool := None\<rparr>) state0 (Some ''10.0.0.1'') 80 =
     (IntPtr ENOMEM, state0) \<and>
   connectionpool_hashtable_insert env0 (mem0\<lparr>kzalloc_pool := None\<rparr>) state0 1 = Inl BadAccess \<and>
   connectionpool_hashtable_insert env0 (mem0\<lparr>kzalloc_pool := None\<rparr>) state0 1 \<noteq>
     Inr (- ENOMEM, state0)"
proof -
  have h1: "nodes state0 1 = Some node0" by (simp add: state0_def)
  have h2: "get_connection_pool env0 state0 (n_ip node0) (n_port node0) = Inr NULL"
    by (simp add: get_connection_pool_def node0_def hash0 state0_def)
  have h3: "kzalloc_pool (mem0\<lparr>kzalloc_pool := None\<rparr>) = None \<or>
            \<not> kstrdup_ok (mem0\<lparr>kzalloc_pool := None\<rparr>)" by simp
  from insert_alloc_failure_not_reported [OF h1 h2 h3] show ?thesis
    by (simp add: node0_def)
qed

subsection \<open>Timed get on a busy pool\<close>

lemma scan_all_locked:
  assumes "\<forall>c \<in> set cs. node_locked s c" and "cs \<noteq> []"
  shows "connection_get_scan s cs now_js apd = Inr (None, False, s)"
proof -
  from assms(1) have ex: "\<forall>c \<in> set cs. \<exists>N. nodes s c = Some N"
    by (auto simp: node_locked_def split: option.splits)
  from assms(1) have none: "find (\<lambda>c. \<not> node_locked s c \<and> node_state s c = Some CONN_READY) cs = None"
    by (simp add: find_None_iff)
  from assms have "\<not> (\<forall>c \<in> set cs. \<not> node_locked s c)" by (cases cs) auto
  with connection_get_scan_none [OF ex none, of now_js apd] show ?thesis by simp
qed

lemma wait_undisturbed_step:
  assumes "pools s pa = Some P" and "0 \<le> timeout"
  shows "\<exists>t' j. timed_get_wait wait_undisturbed s pa timeout =
           Inr (t', s\<lparr>pools := (pools s)(pa \<mapsto>
                        P\<lparr>p_upref := p_upref P + 1 - 1, p_nr_waits := p_nr_waits P + 1\<rparr>),
                      jiffies := j\<rparr>) \<and> 0 \<le> t'"
proof (cases "0 <s p_nr_idle_connections P")
  case True
  with assms show ?thesis
    by (intro exI [of _ "if timeout = 0 then 1 else timeout"] exI [of _ "jiffies s"])
       (simp add: timed_get_wait_def pool_upd_def wait_undisturbed_def)
next
  case False
  with assms show ?thesis
    by (intro exI [of _ 0] exI [of _ "jiffies s + word_of_int timeout"])
       (simp add: timed_get_wait_def pool_upd_def wait_undisturbed_def)
qed

lemma timed_get_loop_busy:
  assumes "get_connection_pool env s ip port = Inr (Ref pa)"
      and "pools s pa = Some P" and "p_conn_list P \<noteq> []"
      and "\<forall>c \<in> set (p_conn_list P). node_locked s c"
      and "0 \<le> timeout"
  shows "timed_get_loop env wait_undisturbed now_js ip port k s timeout connp = None"
  using assms
proof (induction k arbitrary: s P timeout connp)
  case 0
  then show ?case by simp
next
  case (Suc k)
  from scan_all_locked [OF Suc.prems(4) Suc.prems(3)] Suc.prems(2,3)
  have get: "connection_get s pa now_js = Inr (ERR_PTR (- EBUSY), s)"
    by (simp add: connection_get_def)
  from wait_undisturbed_step [OF Suc.prems(2) Suc.prems(5)] obtain t' j where
    w: "timed_get_wait wait_undisturbed s pa timeout =
           Inr (t', s\<lparr>pools := (pools s)(pa \<mapsto>
                        P\<lparr>p_upref := p_upref P + 1 - 1, p_nr_waits := p_nr_waits P + 1\<rparr>),
                      jiffies := j\<rparr>)" and t': "0 \<le> t'" by blast
  define s' where "s' = s\<lparr>pools := (pools s)(pa \<mapsto>
                        P\<lparr>p_upref := p_upref P + 1 - 1, p_nr_waits := p_nr_waits P + 1\<rparr>),
                      jiffies := j\<rparr>"
  have "get_connection_pool env s' ip port = get_connection_pool env s ip port"
    by (rule get_connection_pool_cong) (simp_all add: s'_def Suc.prems(2))
  with Suc.prems(1) have look': "get_connection_pool env s' ip port = Inr (Ref pa)" by simp
  have P': "pools s' pa = Some (P\<lparr>p_upref := p_upref P + 1 - 1, p_nr_waits := p_nr_waits P + 1\<rparr>)"
    by (simp add: s'_def)
  have rec: "timed_get_loop env wait_undisturbed now_js ip port k s' t' (ERR_PTR (- EBUSY)) = None"
    using Suc.prems(3,4)
    by (intro Suc.IH [OF look' P' _ _ t']) (simp_all add: s'_def node_locked_def)
  from Suc.prems(1) get w t' rec show ?case
    by (simp add: s'_def IS_ERR_def PTR_ERR_def ERR_PTR_def errno_defs)
qed

text \<open>
  C2 fails on the code. The endpoint's pool has a list in which every node is locked
  by other tasks, nobody puts a node back and no signal arrives. Each wait then ends
  with 0, the test \<^verbatim>\<open>timeout >= 0\<close> of the loop holds, and the loop runs again:
  whatever the bound on the number of iterations, \<^verbatim>\<open>connection_timed_get\<close> has
  not returned when the bound is reached.
\<close>

theorem timed_get_busy_never_times_out:
  assumes "get_connection_pool env s ip port = Inr (Ref pa)"
      and "pools s pa = Some P" and "p_conn_list P \<noteq> []"
      and "\<forall>c \<in> set (p_conn_list P). node_locked s c"
      and "0 \<le> timeout"
  shows "connection_timed_get env wait_undisturbed k s ip port timeout = None"
  unfolding connection_timed_get_def by (rule timed_get_loop_busy [OF assms])


lemma lookup_state2: "get_connection_pool env0 state2 (Some ''10.0.0.1'') 80 = Inr (Ref 7)"
  by (simp add: get_connection_pool_def hash0 bkt0 state2_def pool2_def pool1_def)

theorem timed_get_busy_never_times_out_witness:
  "pools state2 7 = Some pool2 \<and> p_conn_list pool2 = [1] \<and> node_locked state2 1 \<and>
   connection_timed_get env0 wait_undisturbed 1000 state2 (Some ''10.0.0.1'') 80 10 = None"
proof -
  have h2: "pools state2 7 = Some pool2" by (simp add: state2_def)
  have l: "p_conn_list pool2 = [1]" by (simp add: pool2_def pool1_def)
  then have h3: "p_conn_list pool2 \<noteq> []" by simp
  have lk: "node_locked state2 1"
    by (simp add: node_locked_def state2_def node2_def node0_def test_bit_lock_def CONN_LOCKED_def)
  with l have h4: "\<forall>c \<in> set (p_conn_list pool2). node_locked state2 c" by simp
  have h5: "(0::int) \<le> 10" by simp
  from timed_get_busy_never_times_out [OF lookup_state2 h2 h3 h4 h5, of 1000] h2 l lk
  show ?thesis by simp
qed

text \<open>
  The loop ends only on a negative timeout, which the assertion
  \<^verbatim>\<open>CONNTBL_ASSERT(timeout == 0)\<close> after the loop then rejects.
\<close>

lemma timed_get_signal_asserts:
  "connection_timed_get env0 wait_signalled 1 state2 (Some ''10.0.0.1'') 80 10 =
     Some (Inl AssertFailed)"
proof -
  have g: "connection_get state2 7 (jiffies state2) = Inr (ERR_PTR (- EBUSY), state2)"
    by (simp add: connection_get_def state2_def pool2_def pool1_def node2_def node0_def
        test_bit_lock_def CONN_LOCKED_def)
  have "\<exists>s'. timed_get_wait wait_signalled state2 7 10 = Inr (- 512, s')"
    by (simp add: timed_get_wait_def pool_upd_def state2_def wait_signalled_def ERESTARTSYS_def)
  then obtain s' where w: "timed_get_wait wait_signalled state2 7 10 = Inr (- 512, s')"
    by blast
  show ?thesis
    by (simp add: connection_timed_get_def lookup_state2 g w ERR_PTR_def IS_ERR_def PTR_ERR_def
        errno_defs)
qed

subsection \<open>The order of stores in mark\_failed\<close>

text \<open>
  C5 fails on the code. On a locked node in state \<^verbatim>\<open>CONN_ACTIVE\<close> or
  \<^verbatim>\<open>CONN_RETRY\<close>, \<^verbatim>\<open>cacheobj_connection_node_failed\<close> ends with the node in
  \<^verbatim>\<open>CONN_FAILED\<close>, but the store before the last one has already cleared
  \<^verbatim>\<open>CONN_LOCKED\<close> while the state is still the old one.
\<close>

theorem mark_failed_unlocks_before_state_store:
  assumes "test_bit_lock (n_flags N)"
      and "n_state N = CONN_ACTIVE \<or> n_state N = CONN_RETRY"
  shows "cacheobj_connection_node_failed N = Inr (last (cacheobj_connection_node_failed_trace N)) \<and>
         n_state (last (cacheobj_connection_node_failed_trace N)) = CONN_FAILED \<and>
         \<not> test_bit_lock (n_flags (cacheobj_connection_node_failed_trace N ! 1)) \<and>
         n_state (cacheobj_connection_node_failed_trace N ! 1) = n_state N"
  using assms
  by (auto simp: cacheobj_connection_node_failed_def cacheobj_connection_node_failed_trace_def
      failed_state_store_def failed_unlock_store_def failed_lock_store_def)

theorem mark_failed_unlocks_before_state_store_witness:
  "test_bit_lock (n_flags node2) \<and> n_state node2 = CONN_ACTIVE \<and>
   \<not> test_bit_lock (n_flags (cacheobj_connection_node_failed_trace node2 ! 1)) \<and>
   n_state (cacheobj_connection_node_failed_trace node2 ! 1) = CONN_ACTIVE \<and>
   connectionpool_hashtable_remove
     (state2\<lparr>nodes := (nodes state2)(1 \<mapsto> cacheobj_connection_node_failed_trace node2 ! 1)\<rparr>) 1 =
     Inl AssertFailed"
proof -
  have h1: "test_bit_lock (n_flags node2)"
    by (simp add: node2_def node0_def test_bit_lock_def CONN_LOCKED_def)
  have h2: "n_state node2 = CONN_ACTIVE \<or> n_state node2 = CONN_RETRY"
    by (simp add: node2_def)
  have h3: "n_pool (cacheobj_connection_node_failed_trace node2 ! 1) = Ref 7"
    by (simp add: cacheobj_connection_node_failed_trace_def failed_unlock_store_def
        failed_lock_store_def node2_def)
  from mark_failed_unlocks_before_state_store [OF h1 h2] h1 h3 show ?thesis
    by (simp add: connectionpool_hashtable_remove_def connection_remove_def node2_def)
qed

subsection \<open>Two inserts racing for the creation of a pool\<close>

text \<open>
  When the endpoint has no pool, insert is the lookup under the write lock, the
  allocation with the lock dropped, and \<open>insert_after_alloc\<close> under the lock
  retaken.
\<close>

lemma insert_sections:
  assumes "nodes s connp = Some N"
      and "get_connection_pool env s (n_ip N) (n_port N) = Inr NULL"
      and "connection_pool_alloc env m s (n_ip N) (n_port N) = (pool, s')"
  shows "connectionpool_hashtable_insert env m s connp = insert_after_alloc env s' connp pool"
  using assms by (simp add: connectionpool_hashtable_insert_def)

text \<open>
  C9 fails on the code. Two tasks insert the nodes 1 and 2, both for the endpoint
  10.0.0.1:80, into the empty table. Both look the pool up before either links one,
  so both find none; each allocates a pool (at 7 and at 8); each then retakes the
  lock and links its own pool without looking again. The bucket ends with two
  pools of the endpoint, node 1 in the older one, and a lookup finds only the newer.
\<close>

theorem insert_race_links_two_pools:
  "\<exists>sA sB sC sD.
     get_connection_pool env0 state0 (Some ''10.0.0.1'') 80 = Inr NULL \<and>
     connection_pool_alloc env0 mem0 state0 (Some ''10.0.0.1'') 80 = (Ref 7, sA) \<and>
     connection_pool_alloc env0 mem1 sA (Some ''10.0.0.1'') 80 = (Ref 8, sB) \<and>
     insert_after_alloc env0 sB 1 (Ref 7) = Inr (0, sC) \<and>
     insert_after_alloc env0 sC 2 (Ref 8) = Inr (0, sD) \<and>
     endpoint_pools sD 1 ''10.0.0.1'' 80 = [8, 7] \<and>
     map_option p_conn_list (pools sD 7) = Some [1] \<and>
     map_option p_conn_list (pools sD 8) = Some [2] \<and>
     get_connection_pool env0 sD (Some ''10.0.0.1'') 80 = Inr (Ref 8)"
proof -
  define sA where "sA = state0\<lparr>pools := (pools state0)(7 \<mapsto> pool0)\<rparr>"
  define sB where "sB = sA\<lparr>pools := (pools sA)(8 \<mapsto> pool0)\<rparr>"
  have look: "get_connection_pool env0 state0 (Some ''10.0.0.1'') 80 = Inr NULL"
    by (simp add: get_connection_pool_def hash0 state0_def)
  have a: "connection_pool_alloc env0 mem0 state0 (Some ''10.0.0.1'') 80 = (Ref 7, sA)"
    by (simp add: connection_pool_alloc_def mem0_def hash0 sA_def pool0_def pool1_def)
  have b: "connection_pool_alloc env0 mem1 sA (Some ''10.0.0.1'') 80 = (Ref 8, sB)"
    by (simp add: connection_pool_alloc_def mem1_def hash0 sB_def pool0_def pool1_def)
  have "\<exists>sC. insert_after_alloc env0 sB 1 (Ref 7) = Inr (0, sC) \<and>
          buckets sC = (\<lambda>b. [])(1 := [7]) \<and>
          pools sC = [7 \<mapsto> pool1, 8 \<mapsto> pool0] \<and> nodes sC 2 = Some node0"
    by (simp add: insert_after_alloc_def IS_ERR_def hash_add_def insert_attach_def sB_def sA_def
        state0_def pool0_def pool1_def bkt0 fun_eq_iff)
  then obtain sC where c: "insert_after_alloc env0 sB 1 (Ref 7) = Inr (0, sC)"
    and sC: "buckets sC = (\<lambda>b. [])(1 := [7])" "pools sC = [7 \<mapsto> pool1, 8 \<mapsto> pool0]"
       "nodes sC 2 = Some node0" by blast
  have "\<exists>sD. insert_after_alloc env0 sC 2 (Ref 8) = Inr (0, sD) \<and>
          buckets sD = (\<lambda>b. [])(1 := [8, 7]) \<and>
          pools sD = [7 \<mapsto> pool1, 8 \<mapsto> pool1\<lparr>p_conn_list := [2]\<rparr>]"
    by (simp add: insert_after_alloc_def IS_ERR_def hash_add_def insert_attach_def sC
        pool0_def pool1_def bkt0 fun_eq_iff)
  then obtain sD where d: "insert_after_alloc env0 sC 2 (Ref 8) = Inr (0, sD)"
    and sD: "buckets sD = (\<lambda>b. [])(1 := [8, 7])"
       "pools sD = [7 \<mapsto> pool1, 8 \<mapsto> pool1\<lparr>p_conn_list := [2]\<rparr>]" by blast
  have e: "endpoint_pools sD 1 ''10.0.0.1'' 80 = [8, 7]"
    by (simp add: endpoint_pools_def sD pool1_def)
  have f: "map_option p_conn_list (pools sD 7) = Some [1]"
       "map_option p_conn_list (pools sD 8) = Some [2]"
    by (simp_all add: sD pool1_def)
  have g: "get_connection_pool env0 sD (Some ''10.0.0.1'') 80 = Inr (Ref 8)"
    by (simp add: get_connection_pool_def hash0 bkt0 sD pool1_def)
  from look a b c d e f g show ?thesis by blast
qed

text \<open>The same two inserts one after the other share the pool.\<close>

lemma insert_twice_one_pool:
  "\<exists>s'. connectionpool_hashtable_insert env0 mem1 state1 2 = Inr (0, s') \<and>
        endpoint_pools s' 1 ''10.0.0.1'' 80 = [7] \<and>
        map_option p_conn_list (pools s' 7) = Some [2, 1]"
  by (simp add: connectionpool_hashtable_insert_def get_connection_pool_def hash0 bkt0
      state1_def node0_def pool1_def insert_attach_def IS_ERR_def endpoint_pools_def)

subsection \<open>The idle count under the node transitions\<close>

lemma lookup_state1: "get_connection_pool env0 state1 (Some ''10.0.0.1'') 80 = Inr (Ref 7)"
  by (simp add: get_connection_pool_def hash0 bkt0 state1_def pool1_def)

lemma get_state1:
  "connection_timed_get env0 w 1 state1 (Some ''10.0.0.1'') 80 timeout =
     Some (Inr (Ref 1, state2))"
proof -
  have g: "connection_get state1 7 (jiffies state1) = Inr (Ref 1, state2)"
    by (simp add: connection_get_def state1_def state2_def pool1_def pool2_def node2_def
        node0_def test_bit_lock_def set_bit_lock_def CONN_LOCKED_def fun_eq_iff)
  show ?thesis
    by (simp add: connection_timed_get_def lookup_state1 g IS_ERR_def)
qed

text \<open>
  C1 fails on the code. Node 1 is inserted, taken with
  \<^verbatim>\<open>connection_timed_get\<close>, marked failed, then marked for retry and marked
  ready. The idle count agrees with the number of ready nodes up to the retry;
  \<^verbatim>\<open>cacheobj_connection_node_ready\<close> then makes the node \<^verbatim>\<open>CONN_READY\<close>
  and leaves \<^verbatim>\<open>nr_idle_connections\<close> at 0, with one ready node in the list.
\<close>

theorem retry_then_ready_breaks_idle_count:
  "connectionpool_hashtable_insert env0 mem0 state0 1 = Inr (0, state1) \<and>
   idle_count_ok state1 7 \<and>
   connection_timed_get env0 wait_undisturbed 1 state1 (Some ''10.0.0.1'') 80 100 =
     Some (Inr (Ref 1, state2)) \<and>
   idle_count_ok state2 7 \<and>
   (\<exists>s3 s4 s5.
      on_node cacheobj_connection_node_failed state2 1 = Inr s3 \<and> idle_count_ok s3 7 \<and>
      on_node cacheobj_connection_node_retry s3 1 = Inr s4 \<and> idle_count_ok s4 7 \<and>
      on_node cacheobj_connection_node_ready s4 1 = Inr s5 \<and>
      map_option p_conn_list (pools s5 7) = Some [1] \<and>
      node_state s5 1 = Some CONN_READY \<and>
      map_option p_nr_idle_connections (pools s5 7) = Some 0 \<and>
      \<not> idle_count_ok s5 7)"
proof -
  have a: "idle_count_ok state1 7" "idle_count_ok state2 7"
    by (simp_all add: idle_count_ok_def state1_def state2_def pool1_def pool2_def nr_ready_def
        node_state_def node2_def)
  define n3 where "n3 = node2\<lparr>n_flags := 0, n_state := CONN_FAILED\<rparr>"
  define s3 where "s3 = state2\<lparr>nodes := (nodes state2)(1 \<mapsto> n3)\<rparr>"
  define n4 where "n4 = node2\<lparr>n_flags := 1, n_state := CONN_RETRY\<rparr>"
  define s4 where "s4 = s3\<lparr>nodes := (nodes s3)(1 \<mapsto> n4)\<rparr>"
  define n5 where "n5 = node2\<lparr>n_flags := 0, n_state := CONN_READY\<rparr>"
  define s5 where "s5 = s4\<lparr>nodes := (nodes s4)(1 \<mapsto> n5)\<rparr>"
  have f: "cacheobj_connection_node_failed node2 = Inr n3"
    by (simp add: cacheobj_connection_node_failed_def failed_state_store_def
        failed_unlock_store_def failed_lock_store_def node2_def n3_def lock_bit_values)
  have r: "cacheobj_connection_node_retry n3 = Inr n4"
    by (simp add: cacheobj_connection_node_retry_def n3_def n4_def node2_def lock_bit_values)
  have y: "cacheobj_connection_node_ready n4 = Inr n5"
    by (simp add: cacheobj_connection_node_ready_def n4_def n5_def node2_def lock_bit_values)
  have b: "on_node cacheobj_connection_node_failed state2 1 = Inr s3"
    by (simp add: on_node_def f s3_def) (simp add: state2_def f)
  have c: "on_node cacheobj_connection_node_retry s3 1 = Inr s4"
    by (simp add: on_node_def s3_def r s4_def)
  have d: "on_node cacheobj_connection_node_ready s4 1 = Inr s5"
    by (simp add: on_node_def s4_def y s5_def)
  have e: "idle_count_ok s3 7" "idle_count_ok s4 7"
    by (simp_all add: idle_count_ok_def s3_def s4_def n3_def n4_def state2_def pool1_def
        pool2_def nr_ready_def node_state_def)
  have g: "map_option p_conn_list (pools s5 7) = Some [1]"
      "node_state s5 1 = Some CONN_READY"
      "map_option p_nr_idle_connections (pools s5 7) = Some 0"
      "\<not> idle_count_ok s5 7"
    by (simp_all add: idle_count_ok_def s5_def s4_def s3_def n5_def state2_def pool1_def
        pool2_def nr_ready_def node_state_def)
  from insert_state0 a get_state1 [of wait_undisturbed 100] b c d e g show ?thesis by blast
qed

text \<open>
  Likewise \<^verbatim>\<open>cacheobj_connection_node_retry\<close> on a ready node takes it out of
  \<^verbatim>\<open>CONN_READY\<close> with the count left at 1; after the node has failed, a
  \<^verbatim>\<open>connection_timed_get\<close> reaches the all-paths-down branch and its assertion
  that the idle count is 0 fails.
\<close>

lemma retry_on_ready_node_breaks_idle_count:
  "\<exists>s2 s3.
      on_node cacheobj_connection_node_retry state1 1 = Inr s2 \<and> \<not> idle_count_ok s2 7 \<and>
      on_node cacheobj_connection_node_failed s2 1 = Inr s3 \<and>
      node_state s3 1 = Some CONN_FAILED \<and>
      map_option p_nr_idle_connections (pools s3 7) = Some 1 \<and>
      connection_timed_get env0 wait_undisturbed 1 s3 (Some ''10.0.0.1'') 80 100 =
        Some (Inl AssertFailed)"
proof -
  define n1 where "n1 = node0\<lparr>n_pool := Ref 7, n_state := CONN_READY\<rparr>"
  define n2 where "n2 = n1\<lparr>n_flags := 1, n_state := CONN_RETRY\<rparr>"
  define s2 where "s2 = state1\<lparr>nodes := (nodes state1)(1 \<mapsto> n2)\<rparr>"
  define n3 where "n3 = n1\<lparr>n_flags := 0, n_state := CONN_FAILED\<rparr>"
  define s3 where "s3 = s2\<lparr>nodes := (nodes s2)(1 \<mapsto> n3)\<rparr>"
  have r: "cacheobj_connection_node_retry n1 = Inr n2"
    by (simp add: cacheobj_connection_node_retry_def n1_def n2_def node0_def lock_bit_values)
  have f: "cacheobj_connection_node_failed n2 = Inr n3"
    by (simp add: cacheobj_connection_node_failed_def failed_state_store_def
        failed_unlock_store_def failed_lock_store_def n1_def n2_def n3_def node0_def
        lock_bit_values)
  have b: "on_node cacheobj_connection_node_retry state1 1 = Inr s2"
    by (simp add: on_node_def s2_def) (simp add: state1_def r [unfolded n1_def])
  have c: "on_node cacheobj_connection_node_failed s2 1 = Inr s3"
    by (simp add: on_node_def s2_def f s3_def)
  have e: "\<not> idle_count_ok s2 7" "node_state s3 1 = Some CONN_FAILED"
      "map_option p_nr_idle_connections (pools s3 7) = Some 1"
    by (simp_all add: idle_count_ok_def s3_def s2_def n3_def n2_def n1_def state1_def pool1_def
        nr_ready_def node_state_def)
  have "get_connection_pool env0 s3 (Some ''10.0.0.1'') 80 =
        get_connection_pool env0 state1 (Some ''10.0.0.1'') 80"
    by (rule get_connection_pool_cong) (simp_all add: s3_def s2_def)
  then have look: "get_connection_pool env0 s3 (Some ''10.0.0.1'') 80 = Inr (Ref 7)"
    by (simp add: lookup_state1)
  have p: "pools s3 7 = Some pool1" by (simp add: s3_def s2_def state1_def)
  have n: "nodes s3 (Suc 0) = Some n3" by (simp add: s3_def)
  have "\<exists>s'. connection_get s3 7 (jiffies s3) = Inr (ERR_PTR (- EPIPE), s') \<and>
            pools s' 7 = Some pool1"
    by (simp add: connection_get_def p) (simp add: pool1_def n n3_def n1_def node0_def
        lock_bit_values p)
  then obtain s' where g: "connection_get s3 7 (jiffies s3) = Inr (ERR_PTR (- EPIPE), s')"
    and p': "pools s' 7 = Some pool1" by blast
  have t: "connection_timed_get env0 wait_undisturbed 1 s3 (Some ''10.0.0.1'') 80 100 =
        Some (Inl AssertFailed)"
    by (simp add: connection_timed_get_def look g p' IS_ERR_def PTR_ERR_def ERR_PTR_def
        errno_defs) (simp add: pool1_def)
  from b c e t show ?thesis by blast
qed

end
